theory Spec2Isabelle
  imports Main
begin

section \<open>Data model (schem.py)\<close>

text \<open>
  The mapped classes of \<^verbatim>\<open>schem.py\<close>. A column named \<^verbatim>\<open>user_id\<close>, \<^verbatim>\<open>username\<close>,
  \<^verbatim>\<open>is_active\<close>, \<^verbatim>\<open>team_name\<close> or \<^verbatim>\<open>pull_request_id\<close> occurs in several classes; the
  fields of \<^verbatim>\<open>TeamMember\<close> carry the prefix \<open>tm_\<close> and those of
  \<^verbatim>\<open>PullRequestReviewer\<close> the prefix \<open>rv_\<close>.
\<close>

datatype PRStatus = OPEN | MERGED

record User =
  user_id :: string
  username :: string
  is_active :: bool

record Team =
  team_name :: string

record TeamMember =
  tm_user_id :: string
  tm_team_name :: string
  tm_username :: string
  tm_is_active :: bool

record PullRequest =
  pull_request_id :: string
  pull_request_name :: string
  author_id :: string
  status :: PRStatus

record PullRequestReviewer =
  rv_pull_request_id :: string
  rv_user_id :: string

text \<open>The primary keys declared with \<^verbatim>\<open>primary_key=True\<close>.\<close>

definition User_pk :: "User \<Rightarrow> string" where
  "User_pk u = user_id u"

definition Team_pk :: "Team \<Rightarrow> string" where
  "Team_pk t = team_name t"

definition TeamMember_pk :: "TeamMember \<Rightarrow> string \<times> string" where
  "TeamMember_pk m = (tm_user_id m, tm_team_name m)"

definition PullRequest_pk :: "PullRequest \<Rightarrow> string" where
  "PullRequest_pk p = pull_request_id p"

definition PullRequestReviewer_pk :: "PullRequestReviewer \<Rightarrow> string \<times> string" where
  "PullRequestReviewer_pk r = (rv_pull_request_id r, rv_user_id r)"

text \<open>
  The database: one list of rows per table, in the order in which a query without
  \<^verbatim>\<open>ORDER BY\<close> returns them.
\<close>

record database =
  users :: "User list"
  teams :: "Team list"
  teammembers :: "TeamMember list"
  pullrequests :: "PullRequest list"
  pullrequestreviewers :: "PullRequestReviewer list"

definition empty_database :: database where
  "empty_database =
     \<lparr>users = [], teams = [], teammembers = [], pullrequests = [],
      pullrequestreviewers = []\<rparr>"

section \<open>The session (database.py)\<close>

text \<open>
  \<^verbatim>\<open>SessionLocal = sessionmaker(autocommit=False, autoflush=False, bind=engine)\<close>.

  A session works inside one transaction. \<open>begun\<close> is the database when the transaction
  began (what \<^verbatim>\<open>rollback\<close> restores), \<open>rows\<close> are the rows as the database holds them
  inside the transaction (what the \<^verbatim>\<open>WHERE\<close> clause of a query reads), \<open>objs\<close> are
  the mapped objects of these rows, position by position, with the attribute values
  the program has assigned and that are not flushed yet, and \<open>pending\<close> are the objects
  given to \<^verbatim>\<open>db.add\<close> and not inserted yet.

  With \<^verbatim>\<open>autoflush=False\<close> a query does not flush first: it selects on \<open>rows\<close> and
  returns the objects of the selected rows from the identity map, that is from
  \<open>objs\<close>. An object is returned with its position, which is its identity.
\<close>

record session =
  begun :: database
  rows :: database
  objs :: database
  pending :: database

datatype exn = IntegrityError

definition SessionLocal :: "database \<Rightarrow> session" where
  "SessionLocal d = \<lparr>begun = d, rows = d, objs = d, pending = empty_database\<rparr>"

definition query :: "(database \<Rightarrow> 'a list) \<Rightarrow> ('a \<Rightarrow> bool) \<Rightarrow> session \<Rightarrow> (nat \<times> 'a) list" where
  "query tbl P s =
     map (\<lambda>i. (i, tbl (objs s) ! i))
       (filter (\<lambda>i. P (tbl (rows s) ! i)) [0..<length (tbl (rows s))])"

definition first :: "'a list \<Rightarrow> 'a option" where
  "first xs = (case xs of [] \<Rightarrow> None | x # _ \<Rightarrow> Some x)"

definition limit :: "nat \<Rightarrow> 'a list \<Rightarrow> 'a list" where
  "limit n xs = take n xs"

text \<open>
  A flush writes the objects to the database: the assigned attributes as updates, the
  pending objects as inserts. A row that is written with a primary key (an inserted row,
  or a row whose key columns changed) must not share its key with another row of its
  table, or the database raises \<^verbatim>\<open>IntegrityError\<close>.
\<close>

definition written :: "('a \<Rightarrow> 'k) \<Rightarrow> 'a list \<Rightarrow> 'a list \<Rightarrow> nat \<Rightarrow> bool" where
  "written pk old new i = (if i < length old then pk (new ! i) \<noteq> pk (old ! i) else True)"

definition unique_at :: "('a \<Rightarrow> 'k) \<Rightarrow> 'a list \<Rightarrow> nat \<Rightarrow> bool" where
  "unique_at pk new i = (pk (new ! i) \<notin> set (map pk (take i new @ drop (Suc i) new)))"

definition table_ok :: "('a \<Rightarrow> 'k) \<Rightarrow> 'a list \<Rightarrow> 'a list \<Rightarrow> bool" where
  "table_ok pk old new =
     list_all (\<lambda>i. if written pk old new i then unique_at pk new i else True)
       [0..<length new]"

definition flushed :: "session \<Rightarrow> database" where
  "flushed s =
     \<lparr>users = users (objs s) @ users (pending s),
      teams = teams (objs s) @ teams (pending s),
      teammembers = teammembers (objs s) @ teammembers (pending s),
      pullrequests = pullrequests (objs s) @ pullrequests (pending s),
      pullrequestreviewers = pullrequestreviewers (objs s) @ pullrequestreviewers (pending s)\<rparr>"

definition flush :: "session \<Rightarrow> exn + session" where
  "flush s =
     (let new = flushed s in
      if table_ok User_pk (users (rows s)) (users new)
         \<and> table_ok Team_pk (teams (rows s)) (teams new)
         \<and> table_ok TeamMember_pk (teammembers (rows s)) (teammembers new)
         \<and> table_ok PullRequest_pk (pullrequests (rows s)) (pullrequests new)
         \<and> table_ok PullRequestReviewer_pk (pullrequestreviewers (rows s))
              (pullrequestreviewers new)
      then Inr (s\<lparr>rows := new, objs := new, pending := empty_database\<rparr>)
      else Inl IntegrityError)"

definition commit :: "session \<Rightarrow> exn + database" where
  "commit s = (case flush s of Inl e \<Rightarrow> Inl e | Inr s' \<Rightarrow> Inr (rows s'))"

definition rollback :: "session \<Rightarrow> database" where
  "rollback s = begun s"

text \<open>
  A function that returns without \<^verbatim>\<open>commit\<close> leaves the transaction open; the caller
  closes the session (\<^verbatim>\<open>get_db\<close> in \<^verbatim>\<open>endpoint.py\<close>), which discards what is not
  committed.
\<close>

definition close :: "session \<Rightarrow> database" where
  "close s = begun s"

text \<open>\<^verbatim>\<open>db.add\<close>, for each class.\<close>

definition add_Team :: "Team \<Rightarrow> session \<Rightarrow> session" where
  "add_Team t s = s\<lparr>pending := (pending s)\<lparr>teams := teams (pending s) @ [t]\<rparr>\<rparr>"

definition add_TeamMember :: "TeamMember \<Rightarrow> session \<Rightarrow> session" where
  "add_TeamMember m s =
     s\<lparr>pending := (pending s)\<lparr>teammembers := teammembers (pending s) @ [m]\<rparr>\<rparr>"

definition add_PullRequest :: "PullRequest \<Rightarrow> session \<Rightarrow> session" where
  "add_PullRequest p s =
     s\<lparr>pending := (pending s)\<lparr>pullrequests := pullrequests (pending s) @ [p]\<rparr>\<rparr>"

definition add_PullRequestReviewer :: "PullRequestReviewer \<Rightarrow> session \<Rightarrow> session" where
  "add_PullRequestReviewer r s =
     s\<lparr>pending := (pending s)\<lparr>pullrequestreviewers :=
          pullrequestreviewers (pending s) @ [r]\<rparr>\<rparr>"

text \<open>
  \<^verbatim>\<open>db.merge(user)\<close>: the object of the row with this primary key takes the attributes
  of \<open>u\<close>; without such a row a new pending object is made. A pending object is not in
  the identity map and not in the database, so a second merge of the same new key
  makes a second pending object.
\<close>

definition merge_User :: "User \<Rightarrow> session \<Rightarrow> session" where
  "merge_User u s =
     (case first (query users (\<lambda>r. user_id r = user_id u) s) of
        Some (i, _) \<Rightarrow> s\<lparr>objs := (objs s)\<lparr>users := (users (objs s))[i := u]\<rparr>\<rparr>
      | None \<Rightarrow> s\<lparr>pending := (pending s)\<lparr>users := users (pending s) @ [u]\<rparr>\<rparr>)"

text \<open>Attribute assignment on the object at position \<open>i\<close>.\<close>

definition assign_User :: "nat \<Rightarrow> (User \<Rightarrow> User) \<Rightarrow> session \<Rightarrow> session" where
  "assign_User i f s =
     s\<lparr>objs := (objs s)\<lparr>users := (users (objs s))[i := f (users (objs s) ! i)]\<rparr>\<rparr>"

definition assign_TeamMember :: "nat \<Rightarrow> (TeamMember \<Rightarrow> TeamMember) \<Rightarrow> session \<Rightarrow> session" where
  "assign_TeamMember i f s =
     s\<lparr>objs := (objs s)\<lparr>teammembers :=
          (teammembers (objs s))[i := f (teammembers (objs s) ! i)]\<rparr>\<rparr>"

definition assign_PullRequest :: "nat \<Rightarrow> (PullRequest \<Rightarrow> PullRequest) \<Rightarrow> session \<Rightarrow> session" where
  "assign_PullRequest i f s =
     s\<lparr>objs := (objs s)\<lparr>pullrequests :=
          (pullrequests (objs s))[i := f (pullrequests (objs s) ! i)]\<rparr>\<rparr>"

definition assign_PullRequestReviewer ::
    "nat \<Rightarrow> (PullRequestReviewer \<Rightarrow> PullRequestReviewer) \<Rightarrow> session \<Rightarrow> session" where
  "assign_PullRequestReviewer i f s =
     s\<lparr>objs := (objs s)\<lparr>pullrequestreviewers :=
          (pullrequestreviewers (objs s))[i := f (pullrequestreviewers (objs s) ! i)]\<rparr>\<rparr>"

section \<open>Results (interaction.py)\<close>

text \<open>
  Every function returns a dictionary with \<^verbatim>\<open>"success"\<close>: on failure the error, of
  which the code is kept here (the message is a text for the reader), on success the
  payload.
\<close>

datatype error_code =
    TEAM_EXISTS | TEAM_NOT_FOUND | USER_NOT_FOUND | PR_EXISTS | AUTHOR_NOT_FOUND
  | PR_NOT_FOUND | PR_MERGED | NOT_ASSIGNED | USER_NOT_IN_TEAM | NO_CANDIDATE
  | INTEGRITY_ERROR | SERVER_ERROR

record member_data =
  md_user_id :: string
  md_username :: string
  md_is_active :: bool

record created_team =
  ct_team_name :: string
  ct_members :: "TeamMember list"

record team_result =
  tr_team_name :: string
  tr_members :: "member_data list"

record user_result =
  ur_user_id :: string
  ur_username :: string
  ur_team_name :: "string option"
  ur_is_active :: bool

record pr_result =
  pr_pull_request_id :: string
  pr_pull_request_name :: string
  pr_author_id :: string
  pr_status :: string
  pr_assigned_reviewers :: "string list"

record merged_result =
  mr_pr :: pr_result
  mr_mergedAt :: string

record pr_short =
  ps_pull_request_id :: string
  ps_pull_request_name :: string
  ps_author_id :: string
  ps_status :: string

record review_result =
  rr_user_id :: string
  rr_pull_requests :: "pr_short list"

record reassign_result =
  ra_pr :: pr_result
  ra_replaced_by :: string

fun PRStatus_value :: "PRStatus \<Rightarrow> string" where
  "PRStatus_value OPEN = ''OPEN''"
| "PRStatus_value MERGED = ''MERGED''"

section \<open>Teams\<close>

fun add_members :: "string \<Rightarrow> member_data list \<Rightarrow> session \<Rightarrow> session" where
  "add_members tn [] s = s"
| "add_members tn (m # ms) s =
     add_members tn ms
       (add_TeamMember
          \<lparr>tm_user_id = md_user_id m, tm_team_name = tn, tm_username = md_username m,
           tm_is_active = md_is_active m\<rparr>
          (merge_User
             \<lparr>user_id = md_user_id m, username = md_username m, is_active = md_is_active m\<rparr>
             s))"

definition created_members :: "string \<Rightarrow> member_data list \<Rightarrow> TeamMember list" where
  "created_members tn ms =
     map (\<lambda>m. \<lparr>tm_user_id = md_user_id m, tm_team_name = tn, tm_username = md_username m,
               tm_is_active = md_is_active m\<rparr>) ms"

definition create_team_with_members ::
    "database \<Rightarrow> string \<Rightarrow> member_data list \<Rightarrow> database \<times> (error_code + created_team)" where
  "create_team_with_members db tn members_data =
     (let s = SessionLocal db in
      case first (query teams (\<lambda>t. team_name t = tn) s) of
        Some _ \<Rightarrow> (close s, Inl TEAM_EXISTS)
      | None \<Rightarrow>
          (case flush (add_Team \<lparr>team_name = tn\<rparr> s) of
             Inl IntegrityError \<Rightarrow> (rollback s, Inl INTEGRITY_ERROR)
           | Inr s1 \<Rightarrow>
               (let s2 = add_members tn members_data s1 in
                case commit s2 of
                  Inl IntegrityError \<Rightarrow> (rollback s2, Inl INTEGRITY_ERROR)
                | Inr d \<Rightarrow>
                    (d, Inr \<lparr>ct_team_name = tn,
                             ct_members = created_members tn members_data\<rparr>))))"

definition get_team_with_members ::
    "database \<Rightarrow> string \<Rightarrow> database \<times> (error_code + team_result)" where
  "get_team_with_members db tn =
     (let s = SessionLocal db in
      case first (query teams (\<lambda>t. team_name t = tn) s) of
        None \<Rightarrow> (close s, Inl TEAM_NOT_FOUND)
      | Some _ \<Rightarrow>
          (let team_members =
                 query teammembers (\<lambda>m. tm_team_name m = tn \<and> tm_is_active m) s;
               members_list =
                 map (\<lambda>(_, member).
                        \<lparr>md_user_id = tm_user_id member, md_username = tm_username member,
                         md_is_active = tm_is_active member\<rparr>) team_members
           in (close s, Inr \<lparr>tr_team_name = tn, tr_members = members_list\<rparr>)))"

section \<open>Users\<close>

definition set_user_active_flag ::
    "database \<Rightarrow> string \<Rightarrow> bool \<Rightarrow> database \<times> (error_code + user_result)" where
  "set_user_active_flag db uid act =
     (let s = SessionLocal db in
      case first (query users (\<lambda>u. user_id u = uid) s) of
        None \<Rightarrow> (close s, Inl USER_NOT_FOUND)
      | Some (i, _) \<Rightarrow>
          (let s1 = assign_User i (\<lambda>u. u\<lparr>is_active := act\<rparr>) s;
               team_memberships = query teammembers (\<lambda>m. tm_user_id m = uid) s1;
               s2 = fold (\<lambda>(j, _). assign_TeamMember j (\<lambda>m. m\<lparr>tm_is_active := act\<rparr>))
                      team_memberships s1;
               user_team =
                 first (query teammembers (\<lambda>m. tm_user_id m = uid \<and> tm_is_active m) s2);
               tname = (case user_team of Some (_, m) \<Rightarrow> Some (tm_team_name m) | None \<Rightarrow> None)
           in case commit s2 of
                Inl _ \<Rightarrow> (rollback s2, Inl SERVER_ERROR)
              | Inr d \<Rightarrow>
                  (let user = users d ! i in
                   (d, Inr \<lparr>ur_user_id = user_id user, ur_username = username user,
                            ur_team_name = tname, ur_is_active = is_active user\<rparr>))))"

section \<open>Pull requests\<close>

definition create_pull_request_with_reviewers ::
    "database \<Rightarrow> string \<Rightarrow> string \<Rightarrow> string \<Rightarrow> database \<times> (error_code + pr_result)" where
  "create_pull_request_with_reviewers db pid pname aid =
     (let s = SessionLocal db in
      case first (query pullrequests (\<lambda>p. pull_request_id p = pid) s) of
        Some _ \<Rightarrow> (close s, Inl PR_EXISTS)
      | None \<Rightarrow>
      (case first (query users (\<lambda>u. user_id u = aid \<and> is_active u) s) of
        None \<Rightarrow> (close s, Inl AUTHOR_NOT_FOUND)
      | Some _ \<Rightarrow>
      (case first (query teammembers (\<lambda>m. tm_user_id m = aid \<and> tm_is_active m) s) of
        None \<Rightarrow> (close s, Inl TEAM_NOT_FOUND)
      | Some (_, author_team_member) \<Rightarrow>
          (let tn = tm_team_name author_team_member;
               potential_reviewers =
                 limit 2 (query teammembers
                   (\<lambda>m. tm_team_name m = tn \<and> tm_user_id m \<noteq> aid \<and> tm_is_active m) s);
               new_pr = \<lparr>pull_request_id = pid, pull_request_name = pname,
                         author_id = aid, status = OPEN\<rparr>
           in case flush (add_PullRequest new_pr s) of
                Inl IntegrityError \<Rightarrow> (rollback s, Inl INTEGRITY_ERROR)
              | Inr s1 \<Rightarrow>
                  (let s2 = fold (\<lambda>(_, reviewer).
                                add_PullRequestReviewer
                                  \<lparr>rv_pull_request_id = pid,
                                   rv_user_id = tm_user_id reviewer\<rparr>)
                             potential_reviewers s1;
                       assigned_reviewer_ids =
                         map (\<lambda>(_, reviewer). tm_user_id reviewer) potential_reviewers
                   in case commit s2 of
                        Inl IntegrityError \<Rightarrow> (rollback s2, Inl INTEGRITY_ERROR)
                      | Inr d \<Rightarrow>
                          (d, Inr \<lparr>pr_pull_request_id = pid, pr_pull_request_name = pname,
                                   pr_author_id = aid, pr_status = ''OPEN'',
                                   pr_assigned_reviewers = assigned_reviewer_ids\<rparr>))))))"

text \<open>
  The clock: \<^verbatim>\<open>datetime.now()\<close> gives a naive date and time with microseconds, which
  the functions below take as the argument \<open>now\<close>. \<^verbatim>\<open>isoformat()\<close> prints it as
  \<^verbatim>\<open>"%04d-%02d-%02dT%02d:%02d:%02d"\<close>, followed by \<^verbatim>\<open>".%06d"\<close> of the microseconds
  when they are not zero.
\<close>

record datetime =
  dt_year :: nat
  dt_month :: nat
  dt_day :: nat
  dt_hour :: nat
  dt_minute :: nat
  dt_second :: nat
  dt_microsecond :: nat

definition valid_datetime :: "datetime \<Rightarrow> bool" where
  "valid_datetime d =
     (1 \<le> dt_year d \<and> dt_year d \<le> 9999 \<and> 1 \<le> dt_month d \<and> dt_month d \<le> 12
      \<and> 1 \<le> dt_day d \<and> dt_day d \<le> 31 \<and> dt_hour d < 24 \<and> dt_minute d < 60
      \<and> dt_second d < 60 \<and> dt_microsecond d < 1000000)"

definition digit :: "nat \<Rightarrow> char" where
  "digit d = char_of (48 + d)"

function decimal :: "nat \<Rightarrow> string" where
  "decimal n = (if n < 10 then [digit n] else decimal (n div 10) @ [digit (n mod 10)])"
  by pat_completeness auto
termination
  by (relation "measure id") auto

definition format_0d :: "nat \<Rightarrow> nat \<Rightarrow> string" where
  "format_0d w n = replicate (w - length (decimal n)) (CHR ''0'') @ decimal n"

definition isoformat :: "datetime \<Rightarrow> string" where
  "isoformat d =
     format_0d 4 (dt_year d) @ ''-'' @ format_0d 2 (dt_month d) @ ''-''
       @ format_0d 2 (dt_day d) @ ''T'' @ format_0d 2 (dt_hour d) @ '':''
       @ format_0d 2 (dt_minute d) @ '':'' @ format_0d 2 (dt_second d)
       @ (if dt_microsecond d \<noteq> 0 then ''.'' @ format_0d 6 (dt_microsecond d) else [])"

definition merge_pull_request ::
    "database \<Rightarrow> datetime \<Rightarrow> string \<Rightarrow> database \<times> (error_code + merged_result)" where
  "merge_pull_request db now pid =
     (let s = SessionLocal db in
      case first (query pullrequests (\<lambda>p. pull_request_id p = pid) s) of
        None \<Rightarrow> (close s, Inl PR_NOT_FOUND)
      | Some (i, pr) \<Rightarrow>
          (let reviewers = query pullrequestreviewers (\<lambda>r. rv_pull_request_id r = pid) s;
               reviewer_ids = map (\<lambda>(_, reviewer). rv_user_id reviewer) reviewers
           in if status pr = MERGED
              then (close s,
                    Inr \<lparr>mr_pr = \<lparr>pr_pull_request_id = pull_request_id pr,
                                  pr_pull_request_name = pull_request_name pr,
                                  pr_author_id = author_id pr, pr_status = ''MERGED'',
                                  pr_assigned_reviewers = reviewer_ids\<rparr>,
                         mr_mergedAt = isoformat now @ ''Z''\<rparr>)
              else (let s1 = assign_PullRequest i (\<lambda>p. p\<lparr>status := MERGED\<rparr>) s in
                    case commit s1 of
                      Inl _ \<Rightarrow> (rollback s1, Inl SERVER_ERROR)
                    | Inr d \<Rightarrow>
                        (let pr' = pullrequests d ! i in
                         (d, Inr \<lparr>mr_pr = \<lparr>pr_pull_request_id = pull_request_id pr',
                                           pr_pull_request_name = pull_request_name pr',
                                           pr_author_id = author_id pr',
                                           pr_status = ''MERGED'',
                                           pr_assigned_reviewers = reviewer_ids\<rparr>,
                                  mr_mergedAt = isoformat now @ ''Z''\<rparr>)))))"

fun review_pull_requests :: "session \<Rightarrow> (nat \<times> PullRequestReviewer) list \<Rightarrow> pr_short list" where
  "review_pull_requests s [] = []"
| "review_pull_requests s ((_, assignment) # rest) =
     (case first (query pullrequests
                    (\<lambda>p. pull_request_id p = rv_pull_request_id assignment) s) of
        Some (_, pr) \<Rightarrow>
          \<lparr>ps_pull_request_id = pull_request_id pr,
           ps_pull_request_name = pull_request_name pr,
           ps_author_id = author_id pr,
           ps_status = PRStatus_value (status pr)\<rparr> # review_pull_requests s rest
      | None \<Rightarrow> review_pull_requests s rest)"

definition get_user_review_pull_requests ::
    "database \<Rightarrow> string \<Rightarrow> database \<times> (error_code + review_result)" where
  "get_user_review_pull_requests db uid =
     (let s = SessionLocal db in
      case first (query users (\<lambda>u. user_id u = uid) s) of
        None \<Rightarrow> (close s, Inl USER_NOT_FOUND)
      | Some _ \<Rightarrow>
          (let review_assignments = query pullrequestreviewers (\<lambda>r. rv_user_id r = uid) s;
               pull_requests_list = review_pull_requests s review_assignments
           in (close s, Inr \<lparr>rr_user_id = uid, rr_pull_requests = pull_requests_list\<rparr>)))"

definition reassign_pull_request_reviewer ::
    "database \<Rightarrow> string \<Rightarrow> string \<Rightarrow> database \<times> (error_code + reassign_result)" where
  "reassign_pull_request_reviewer db pid old_user_id =
     (let s = SessionLocal db in
      case first (query pullrequests (\<lambda>p. pull_request_id p = pid) s) of
        None \<Rightarrow> (close s, Inl PR_NOT_FOUND)
      | Some (i, pr) \<Rightarrow>
      if status pr = MERGED then (close s, Inl PR_MERGED)
      else
      (case first (query pullrequestreviewers
                     (\<lambda>r. rv_pull_request_id r = pid \<and> rv_user_id r = old_user_id) s) of
        None \<Rightarrow> (close s, Inl NOT_ASSIGNED)
      | Some (k, _) \<Rightarrow>
      (case first (query teammembers
                     (\<lambda>m. tm_user_id m = old_user_id \<and> tm_is_active m) s) of
        None \<Rightarrow> (close s, Inl USER_NOT_IN_TEAM)
      | Some (_, old_reviewer_team) \<Rightarrow>
          (let tn = tm_team_name old_reviewer_team;
               current_reviewers =
                 query pullrequestreviewers (\<lambda>r. rv_pull_request_id r = pid) s;
               current_reviewer_ids = map (\<lambda>(_, r). rv_user_id r) current_reviewers
           in case first (query teammembers
                            (\<lambda>m. tm_team_name m = tn \<and> tm_user_id m \<noteq> author_id pr
                                 \<and> tm_user_id m \<notin> set current_reviewer_ids
                                 \<and> tm_is_active m) s) of
                None \<Rightarrow> (close s, Inl NO_CANDIDATE)
              | Some (_, candidate) \<Rightarrow>
                  (let s1 = assign_PullRequestReviewer k
                              (\<lambda>r. r\<lparr>rv_user_id := tm_user_id candidate\<rparr>) s;
                       updated_reviewers =
                         query pullrequestreviewers (\<lambda>r. rv_pull_request_id r = pid) s1;
                       updated_reviewer_ids =
                         map (\<lambda>(_, reviewer). rv_user_id reviewer) updated_reviewers
                   in case commit s1 of
                        Inl _ \<Rightarrow> (rollback s1, Inl SERVER_ERROR)
                      | Inr d \<Rightarrow>
                          (let pr' = pullrequests d ! i in
                           (d, Inr \<lparr>ra_pr = \<lparr>pr_pull_request_id = pull_request_id pr',
                                             pr_pull_request_name = pull_request_name pr',
                                             pr_author_id = author_id pr',
                                             pr_status = PRStatus_value (status pr'),
                                             pr_assigned_reviewers = updated_reviewer_ids\<rparr>,
                                    ra_replaced_by = tm_user_id candidate\<rparr>)))))))"

text \<open>
  The value of a string of decimal digits, the inverse of \<open>decimal\<close> and \<open>format_0d\<close>;
  it serves to show that \<open>isoformat\<close> prints different times differently.
\<close>

declare decimal.simps [simp del]

definition decimal_value :: "string \<Rightarrow> nat" where
  "decimal_value s = fold (\<lambda>c a. 10 * a + (of_char c - 48)) s 0"

section \<open>Example data\<close>

text \<open>
  The team of \<^verbatim>\<open>test.py\<close> with its pull requests, a second team, and an inactive user.
\<close>

definition example_db :: database where
  "example_db =
     \<lparr>users =
        [\<lparr>user_id = ''u1'', username = ''Alice'', is_active = True\<rparr>,
         \<lparr>user_id = ''u2'', username = ''Bob'', is_active = True\<rparr>,
         \<lparr>user_id = ''u3'', username = ''Charlie'', is_active = True\<rparr>,
         \<lparr>user_id = ''u4'', username = ''David'', is_active = True\<rparr>,
         \<lparr>user_id = ''u5'', username = ''Eve'', is_active = False\<rparr>],
      teams = [\<lparr>team_name = ''payments''\<rparr>, \<lparr>team_name = ''backend''\<rparr>],
      teammembers =
        [\<lparr>tm_user_id = ''u1'', tm_team_name = ''payments'', tm_username = ''Alice'',
          tm_is_active = True\<rparr>,
         \<lparr>tm_user_id = ''u2'', tm_team_name = ''payments'', tm_username = ''Bob'',
          tm_is_active = True\<rparr>,
         \<lparr>tm_user_id = ''u3'', tm_team_name = ''payments'', tm_username = ''Charlie'',
          tm_is_active = True\<rparr>,
         \<lparr>tm_user_id = ''u4'', tm_team_name = ''payments'', tm_username = ''David'',
          tm_is_active = True\<rparr>,
         \<lparr>tm_user_id = ''u2'', tm_team_name = ''backend'', tm_username = ''Bob'',
          tm_is_active = True\<rparr>,
         \<lparr>tm_user_id = ''u5'', tm_team_name = ''backend'', tm_username = ''Eve'',
          tm_is_active = False\<rparr>],
      pullrequests =
        [\<lparr>pull_request_id = ''pr-1001'', pull_request_name = ''Add search'',
          author_id = ''u1'', status = OPEN\<rparr>,
         \<lparr>pull_request_id = ''pr-1002'', pull_request_name = ''Fix bug'',
          author_id = ''u2'', status = MERGED\<rparr>],
      pullrequestreviewers =
        [\<lparr>rv_pull_request_id = ''pr-1001'', rv_user_id = ''u2''\<rparr>,
         \<lparr>rv_pull_request_id = ''pr-1001'', rv_user_id = ''u3''\<rparr>,
         \<lparr>rv_pull_request_id = ''pr-1002'', rv_user_id = ''u1''\<rparr>,
         \<lparr>rv_pull_request_id = ''pr-1002'', rv_user_id = ''u3''\<rparr>]\<rparr>"

definition example_now1 :: datetime where
  "example_now1 =
     \<lparr>dt_year = 2025, dt_month = 11, dt_day = 4, dt_hour = 9, dt_minute = 30,
      dt_second = 15, dt_microsecond = 0\<rparr>"

definition example_now2 :: datetime where
  "example_now2 =
     \<lparr>dt_year = 2025, dt_month = 11, dt_day = 4, dt_hour = 9, dt_minute = 30,
      dt_second = 15, dt_microsecond = 250\<rparr>"

section \<open>Queries, flushes and commits\<close>

lemma idx_Cons:
  "filter (\<lambda>i. P ((x # xs) ! i)) [0..<length (x # xs)] =
     (if P x then [0] else []) @ map Suc (filter (\<lambda>i. P (xs ! i)) [0..<length xs])"
proof -
  have "[0..<length (x # xs)] = 0 # map Suc [0..<length xs]"
    by (simp add: upt_conv_Cons map_Suc_upt del: upt_Suc)
  then show ?thesis
    by (simp add: filter_map comp_def del: upt_Suc)
qed

lemma idx_nth: "map ((!) xs) (filter (\<lambda>i. P (xs ! i)) [0..<length xs]) = filter P xs"
proof -
  have "filter P (map ((!) xs) [0..<length xs]) =
          map ((!) xs) (filter (\<lambda>i. P (xs ! i)) [0..<length xs])"
    by (simp add: filter_map comp_def)
  then show ?thesis by (simp add: map_nth)
qed

lemma idx_set: "set (filter (\<lambda>i. P (xs ! i)) [0..<length xs]) = {i. i < length xs \<and> P (xs ! i)}"
  by auto

lemma idx_distinct: "distinct (filter (\<lambda>i. P (xs ! i)) [0..<length xs])"
  by simp

lemma query_fresh:
  "query tbl P (SessionLocal d) =
     map (\<lambda>i. (i, tbl d ! i)) (filter (\<lambda>i. P (tbl d ! i)) [0..<length (tbl d)])"
  by (simp add: query_def SessionLocal_def)

lemma query_snd: "map snd (query tbl P (SessionLocal d)) = filter P (tbl d)"
  using idx_nth [of "tbl d" P] by (simp add: query_fresh comp_def)

lemma first_None: "first xs = None \<longleftrightarrow> xs = []"
  by (simp add: first_def split: list.splits)

lemma first_Some: "first xs = Some x \<longleftrightarrow> (\<exists>ys. xs = x # ys)"
  by (auto simp: first_def split: list.splits)

lemma idx_first_None:
  "first (map g (filter (\<lambda>i. P (xs ! i)) [0..<length xs])) = None \<longleftrightarrow> (\<forall>x\<in>set xs. \<not> P x)"
proof -
  have "filter (\<lambda>i. P (xs ! i)) [0..<length xs] = [] \<longleftrightarrow> (\<forall>x\<in>set xs. \<not> P x)"
    by (auto simp: filter_empty_conv all_set_conv_all_nth)
  then show ?thesis by (simp add: first_None)
qed

lemma idx_first_Some:
  "first (map g (filter (\<lambda>i. P (xs ! i)) [0..<length xs])) = Some y \<longleftrightarrow>
     (\<exists>i<length xs. P (xs ! i) \<and> (\<forall>j<i. \<not> P (xs ! j)) \<and> y = g i)"
proof (induction xs arbitrary: g y)
  case Nil
  then show ?case by (simp add: first_def)
next
  case (Cons x xs)
  show ?case
  proof (cases "P x")
    case True
    have "first (map g (filter (\<lambda>i. P ((x # xs) ! i)) [0..<length (x # xs)])) = Some (g 0)"
      unfolding idx_Cons using True by (simp add: first_def)
    moreover have "(\<exists>i<length (x # xs). P ((x # xs) ! i) \<and> (\<forall>j<i. \<not> P ((x # xs) ! j)) \<and> y = g i)
                    \<longleftrightarrow> y = g 0"
    proof
      assume "\<exists>i<length (x # xs). P ((x # xs) ! i) \<and> (\<forall>j<i. \<not> P ((x # xs) ! j)) \<and> y = g i"
      then obtain i where i: "P ((x # xs) ! i)" "\<forall>j<i. \<not> P ((x # xs) ! j)" "y = g i" by blast
      have "i = 0"
      proof (rule ccontr)
        assume "i \<noteq> 0"
        then have "0 < i" by simp
        with i(2) have "\<not> P ((x # xs) ! 0)" by blast
        with True show False by simp
      qed
      with i(3) show "y = g 0" by simp
    next
      assume "y = g 0"
      with True show "\<exists>i<length (x # xs). P ((x # xs) ! i) \<and> (\<forall>j<i. \<not> P ((x # xs) ! j)) \<and> y = g i"
        by (intro exI [of _ 0]) simp
    qed
    ultimately show ?thesis by auto
  next
    case False
    have A: "first (map g (filter (\<lambda>i. P ((x # xs) ! i)) [0..<length (x # xs)])) =
            first (map (g \<circ> Suc) (filter (\<lambda>i. P (xs ! i)) [0..<length xs]))"
      unfolding idx_Cons using False by simp
    have B: "(\<exists>i<length (x # xs). P ((x # xs) ! i) \<and> (\<forall>j<i. \<not> P ((x # xs) ! j)) \<and> y = g i)
                    \<longleftrightarrow> (\<exists>i<length xs. P (xs ! i) \<and> (\<forall>j<i. \<not> P (xs ! j)) \<and> y = (g \<circ> Suc) i)"
    proof
      assume "\<exists>i<length (x # xs). P ((x # xs) ! i) \<and> (\<forall>j<i. \<not> P ((x # xs) ! j)) \<and> y = g i"
      then obtain i where i: "i < length (x # xs)" "P ((x # xs) ! i)"
          "\<forall>j<i. \<not> P ((x # xs) ! j)" "y = g i" by blast
      from i(2) False obtain k where k: "i = Suc k" by (cases i) auto
      have "\<forall>j<k. \<not> P (xs ! j)"
      proof (intro allI impI)
        fix j assume "j < k"
        then have "Suc j < i" using k by simp
        with i(3) have "\<not> P ((x # xs) ! Suc j)" by blast
        then show "\<not> P (xs ! j)" by simp
      qed
      with i k show "\<exists>i<length xs. P (xs ! i) \<and> (\<forall>j<i. \<not> P (xs ! j)) \<and> y = (g \<circ> Suc) i"
        by (intro exI [of _ k]) simp
    next
      assume "\<exists>i<length xs. P (xs ! i) \<and> (\<forall>j<i. \<not> P (xs ! j)) \<and> y = (g \<circ> Suc) i"
      then obtain k where k: "k < length xs" "P (xs ! k)" "\<forall>j<k. \<not> P (xs ! j)" "y = g (Suc k)"
        by auto
      have "\<forall>j<Suc k. \<not> P ((x # xs) ! j)"
      proof (intro allI impI)
        fix j assume "j < Suc k"
        then show "\<not> P ((x # xs) ! j)" using False k(3) by (cases j) auto
      qed
      with k show "\<exists>i<length (x # xs). P ((x # xs) ! i) \<and> (\<forall>j<i. \<not> P ((x # xs) ! j)) \<and> y = g i"
        by (intro exI [of _ "Suc k"]) simp
    qed
    show ?thesis unfolding A B by (rule Cons.IH)
  qed
qed

lemma first_query_None:
  "first (query tbl P (SessionLocal d)) = None \<longleftrightarrow> (\<forall>x\<in>set (tbl d). \<not> P x)"
  unfolding query_fresh by (rule idx_first_None)

lemma first_query_Some:
  "first (query tbl P (SessionLocal d)) = Some (i, x) \<longleftrightarrow>
     (i < length (tbl d) \<and> P (tbl d ! i) \<and> (\<forall>j<i. \<not> P (tbl d ! j)) \<and> x = tbl d ! i)"
  unfolding query_fresh idx_first_Some by auto

lemma first_query_None_gen:
  "first (query tbl P s) = None \<longleftrightarrow> (\<forall>x\<in>set (tbl (rows s)). \<not> P x)"
  unfolding query_def by (rule idx_first_None)

lemma first_query_Some_gen:
  "first (query tbl P s) = Some y \<longleftrightarrow>
     (\<exists>i<length (tbl (rows s)). P (tbl (rows s) ! i) \<and> (\<forall>j<i. \<not> P (tbl (rows s) ! j))
        \<and> y = (i, tbl (objs s) ! i))"
  unfolding query_def by (rule idx_first_Some)

lemma table_ok_same_keys:
  assumes "length new = length old" and "\<forall>i<length old. pk (new ! i) = pk (old ! i)"
  shows "table_ok pk old new"
  using assms by (simp add: table_ok_def written_def list_all_iff)

lemma table_ok_refl: "table_ok pk xs xs"
  by (rule table_ok_same_keys) simp_all

lemma table_ok_insert1:
  assumes "pk r \<notin> pk ` set old"
  shows "table_ok pk old (old @ [r])"
  unfolding table_ok_def list_all_iff
proof
  fix i assume "i \<in> set [0..<length (old @ [r])]"
  then have "i < length old \<or> i = length old" by auto
  then show "if written pk old (old @ [r]) i then unique_at pk (old @ [r]) i else True"
  proof
    assume "i < length old"
    then show ?thesis by (simp add: written_def nth_append)
  next
    assume "i = length old"
    then show ?thesis using assms by (simp add: unique_at_def)
  qed
qed

lemma table_ok_dup:
  assumes "length objs' = length old" and "\<not> distinct (map pk ps)"
  shows "\<not> table_ok pk old (objs' @ ps)"
proof -
  from assms(2) obtain a b where ab: "a < b" "b < length ps" "pk (ps ! a) = pk (ps ! b)"
    by (auto simp: distinct_conv_nth nat_neq_iff)
  let ?new = "objs' @ ps"
  let ?i = "length old + b"
  have i: "?i < length ?new" using ab assms(1) by simp
  have w: "written pk old ?new ?i" by (simp add: written_def)
  have tk: "take ?i ?new = objs' @ take b ps"
    using assms(1) by simp
  have "ps ! a \<in> set (take b ps)"
    using ab by (auto simp: in_set_conv_nth intro!: exI [of _ a])
  then have "ps ! a \<in> set (take ?i ?new)"
    unfolding tk by simp
  moreover have "pk (ps ! a) = pk (?new ! ?i)"
    using ab assms(1) by (simp add: nth_append)
  ultimately have "\<not> unique_at pk ?new ?i"
    unfolding unique_at_def by (metis UnCI image_eqI set_append set_map)
  with w i show ?thesis
    by (auto simp: table_ok_def list_all_iff)
qed

lemma fold_update_distinct:
  "distinct js \<Longrightarrow>
   fold (\<lambda>j xs. xs[j := f (xs ! j)]) js xs =
     map (\<lambda>i. if i \<in> set js then f (xs ! i) else xs ! i) [0..<length xs]"
proof (induction js arbitrary: xs)
  case Nil
  then show ?case by (simp add: map_nth)
next
  case (Cons j js)
  then have j: "j \<notin> set js" and d: "distinct js" by simp_all
  have "fold (\<lambda>j xs. xs[j := f (xs ! j)]) (j # js) xs =
          fold (\<lambda>j xs. xs[j := f (xs ! j)]) js (xs[j := f (xs ! j)])"
    by simp
  also have "\<dots> = map (\<lambda>i. if i \<in> set js then f (xs[j := f (xs ! j)] ! i)
                              else xs[j := f (xs ! j)] ! i) [0..<length xs]"
    using Cons.IH [OF d, of "xs[j := f (xs ! j)]"] by simp
  also have "\<dots> = map (\<lambda>i. if i \<in> set (j # js) then f (xs ! i) else xs ! i) [0..<length xs]"
  proof (rule map_cong [OF refl])
    fix i assume "i \<in> set [0..<length xs]"
    then have i: "i < length xs" by simp
    show "(if i \<in> set js then f (xs[j := f (xs ! j)] ! i) else xs[j := f (xs ! j)] ! i) =
          (if i \<in> set (j # js) then f (xs ! i) else xs ! i)"
    proof (cases "i = j")
      case True
      with j i show ?thesis by simp
    next
      case False
      then show ?thesis by simp
    qed
  qed
  finally show ?case .
qed

lemma update_where:
  "fold (\<lambda>(j, _) xs. xs[j := f (xs ! j)])
     (map (\<lambda>i. (i, h i)) (filter (\<lambda>i. P (xs ! i)) [0..<length xs])) xs =
   map (\<lambda>x. if P x then f x else x) xs"
proof -
  let ?js = "filter (\<lambda>i. P (xs ! i)) [0..<length xs]"
  have "fold (\<lambda>(j, _) xs. xs[j := f (xs ! j)]) (map (\<lambda>i. (i, h i)) ?js) xs =
          fold (\<lambda>j xs. xs[j := f (xs ! j)]) ?js xs"
    by (simp add: fold_map comp_def)
  also have "\<dots> = map (\<lambda>i. if i \<in> set ?js then f (xs ! i) else xs ! i) [0..<length xs]"
    by (rule fold_update_distinct) simp
  also have "\<dots> = map (\<lambda>i. (\<lambda>x. if P x then f x else x) (xs ! i)) [0..<length xs]"
    by (rule map_cong [OF refl]) simp
  also have "\<dots> = map (\<lambda>x. if P x then f x else x) (map ((!) xs) [0..<length xs])"
    by (simp add: comp_def)
  finally show ?thesis by (simp add: map_nth)
qed

lemma fold_assign_TeamMember:
  "fold (\<lambda>(j, _). assign_TeamMember j f) q s =
     s\<lparr>objs := (objs s)\<lparr>teammembers :=
          fold (\<lambda>(j, _) xs. xs[j := f (xs ! j)]) q (teammembers (objs s))\<rparr>\<rparr>"
  by (induction q arbitrary: s) (auto simp: assign_TeamMember_def)

lemma first_idx_find:
  assumes "i < length xs" "P (xs ! i)" "\<forall>j<i. \<not> P (xs ! j)"
  shows "find P xs = Some (xs ! i)"
  using assms by (auto simp: find_Some_iff)

lemma commit_no_pending:
  assumes "pending s = empty_database"
    and "table_ok User_pk (users (rows s)) (users (objs s))"
    and "table_ok Team_pk (teams (rows s)) (teams (objs s))"
    and "table_ok TeamMember_pk (teammembers (rows s)) (teammembers (objs s))"
    and "table_ok PullRequest_pk (pullrequests (rows s)) (pullrequests (objs s))"
    and "table_ok PullRequestReviewer_pk (pullrequestreviewers (rows s))
           (pullrequestreviewers (objs s))"
  shows "commit s = Inr (objs s)"
  using assms by (cases "objs s") (simp add: commit_def flush_def flushed_def empty_database_def Let_def)

lemma set_user_active_flag_found:
  assumes i: "i < length (users db)" "user_id (users db ! i) = uid"
    "\<forall>j<i. user_id (users db ! j) \<noteq> uid"
  shows "set_user_active_flag db uid act =
    (db\<lparr>users := (users db)[i := (users db ! i)\<lparr>is_active := act\<rparr>],
        teammembers := map (\<lambda>m. if tm_user_id m = uid then m\<lparr>tm_is_active := act\<rparr> else m)
                         (teammembers db)\<rparr>,
     Inr \<lparr>ur_user_id = uid, ur_username = username (users db ! i),
          ur_team_name = map_option tm_team_name
            (find (\<lambda>m. tm_user_id m = uid \<and> tm_is_active m) (teammembers db)),
          ur_is_active = act\<rparr>)"
proof -
  define s where "s = SessionLocal db"
  define s1 where "s1 = assign_User i (\<lambda>u. u\<lparr>is_active := act\<rparr>) s"
  define q where "q = query teammembers (\<lambda>m. tm_user_id m = uid) s1"
  define s2 where "s2 = fold (\<lambda>(j, _). assign_TeamMember j (\<lambda>m. m\<lparr>tm_is_active := act\<rparr>)) q s1"
  define M where "M = map (\<lambda>m. if tm_user_id m = uid then m\<lparr>tm_is_active := act\<rparr> else m)
                         (teammembers db)"
  define U where "U = (users db)[i := (users db ! i)\<lparr>is_active := act\<rparr>]"
  have f: "first (query users (\<lambda>u. user_id u = uid) s) = Some (i, users db ! i)"
    unfolding s_def using i by (simp add: first_query_Some)
  have s1: "s1 = \<lparr>begun = db, rows = db, objs = db\<lparr>users := U\<rparr>, pending = empty_database\<rparr>"
    by (simp add: s1_def s_def assign_User_def SessionLocal_def U_def)
  have q: "q = map (\<lambda>i. (i, teammembers db ! i))
                 (filter (\<lambda>i. tm_user_id (teammembers db ! i) = uid) [0..<length (teammembers db)])"
    by (simp add: q_def query_def s1)
  have s2: "s2 = \<lparr>begun = db, rows = db, objs = db\<lparr>users := U, teammembers := M\<rparr>,
                  pending = empty_database\<rparr>"
    unfolding s2_def fold_assign_TeamMember
    using update_where [where f = "\<lambda>m. m\<lparr>tm_is_active := act\<rparr>" and h = "\<lambda>i. teammembers db ! i"
        and P = "\<lambda>m. tm_user_id m = uid" and xs = "teammembers db"]
    by (simp add: s1 q M_def)
  have c: "commit s2 = Inr (db\<lparr>users := U, teammembers := M\<rparr>)"
  proof -
    have "commit s2 = Inr (objs s2)"
    proof (rule commit_no_pending)
      show "table_ok User_pk (users (rows s2)) (users (objs s2))"
        by (rule table_ok_same_keys) (use i(1) in \<open>auto simp: s2 U_def User_pk_def nth_list_update\<close>)
      show "table_ok TeamMember_pk (teammembers (rows s2)) (teammembers (objs s2))"
        by (rule table_ok_same_keys) (auto simp: s2 M_def TeamMember_pk_def)
    qed (simp_all add: s2 table_ok_refl)
    then show ?thesis by (simp add: s2)
  qed
  have t: "(case first (query teammembers (\<lambda>m. tm_user_id m = uid \<and> tm_is_active m) s2) of
              Some (_, m) \<Rightarrow> Some (tm_team_name m) | None \<Rightarrow> None) =
           map_option tm_team_name
             (find (\<lambda>m. tm_user_id m = uid \<and> tm_is_active m) (teammembers db))"
    (is "?l = ?r")
  proof (cases "first (query teammembers (\<lambda>m. tm_user_id m = uid \<and> tm_is_active m) s2)")
    case None
    then have "\<forall>x\<in>set (teammembers db). \<not> (tm_user_id x = uid \<and> tm_is_active x)"
      by (simp add: first_query_None_gen s2)
    then have "find (\<lambda>m. tm_user_id m = uid \<and> tm_is_active m) (teammembers db) = None"
      by (simp add: find_None_iff)
    with None show ?thesis by simp
  next
    case (Some y)
    then obtain k where k: "k < length (teammembers db)"
        "tm_user_id (teammembers db ! k) = uid \<and> tm_is_active (teammembers db ! k)"
        "\<forall>j<k. \<not> (tm_user_id (teammembers db ! j) = uid \<and> tm_is_active (teammembers db ! j))"
        "y = (k, M ! k)"
      by (auto simp: first_query_Some_gen s2)
    have "find (\<lambda>m. tm_user_id m = uid \<and> tm_is_active m) (teammembers db) =
            Some (teammembers db ! k)"
      by (rule first_idx_find) (use k in auto)
    moreover have "tm_team_name (M ! k) = tm_team_name (teammembers db ! k)"
      using k(1) by (simp add: M_def)
    ultimately show ?thesis using Some k(4) by simp
  qed
  have u: "users (db\<lparr>users := U, teammembers := M\<rparr>) ! i = (users db ! i)\<lparr>is_active := act\<rparr>"
    using i(1) by (simp add: U_def)
  show ?thesis
    unfolding set_user_active_flag_def Let_def
    unfolding s_def [symmetric] f option.case prod.case
    unfolding s1_def [symmetric] q_def [symmetric] s2_def [symmetric] t c sum.case u
    by (simp add: U_def M_def i)
qed

lemma set_user_active_flag_absent:
  assumes "\<forall>u\<in>set (users db). user_id u \<noteq> uid"
  shows "set_user_active_flag db uid act = (db, Inl USER_NOT_FOUND)"
proof -
  have "first (query users (\<lambda>u. user_id u = uid) (SessionLocal db)) = None"
    using assms by (simp add: first_query_None)
  then show ?thesis
    by (simp add: set_user_active_flag_def close_def SessionLocal_def)
qed

lemma first_index_ex:
  assumes "\<exists>x\<in>set xs. P x"
  shows "\<exists>i<length xs. P (xs ! i) \<and> (\<forall>j<i. \<not> P (xs ! j))"
proof -
  from assms obtain x where "find P xs = Some x"
    by (cases "find P xs") (auto simp: find_None_iff)
  then show ?thesis by (auto simp: find_Some_iff)
qed


lemma query_map_snd:
  "map (\<lambda>(_, r). f r) (query tbl P (SessionLocal d)) = map f (filter P (tbl d))"
proof -
  have "map (\<lambda>(_, r). f r) (query tbl P (SessionLocal d)) =
          map f (map snd (query tbl P (SessionLocal d)))"
    by (simp add: case_prod_unfold comp_def)
  then show ?thesis by (simp add: query_snd)
qed

lemma merge_pull_request_found:
  assumes i: "i < length (pullrequests db)" "pull_request_id (pullrequests db ! i) = pid"
    "\<forall>j<i. pull_request_id (pullrequests db ! j) \<noteq> pid"
  shows "merge_pull_request db now pid =
    (if status (pullrequests db ! i) = MERGED then db
     else db\<lparr>pullrequests := (pullrequests db)[i := (pullrequests db ! i)\<lparr>status := MERGED\<rparr>]\<rparr>,
     Inr \<lparr>mr_pr = \<lparr>pr_pull_request_id = pid,
                  pr_pull_request_name = pull_request_name (pullrequests db ! i),
                  pr_author_id = author_id (pullrequests db ! i),
                  pr_status = ''MERGED'',
                  pr_assigned_reviewers =
                    map rv_user_id (filter (\<lambda>r. rv_pull_request_id r = pid)
                                      (pullrequestreviewers db))\<rparr>,
          mr_mergedAt = isoformat now @ ''Z''\<rparr>)"
proof -
  define s where "s = SessionLocal db"
  define s1 where "s1 = assign_PullRequest i (\<lambda>p. p\<lparr>status := MERGED\<rparr>) s"
  define Q where "Q = (pullrequests db)[i := (pullrequests db ! i)\<lparr>status := MERGED\<rparr>]"
  have f: "first (query pullrequests (\<lambda>p. pull_request_id p = pid) s) =
             Some (i, pullrequests db ! i)"
    unfolding s_def using i by (simp add: first_query_Some)
  have r: "map (\<lambda>(_, reviewer). rv_user_id reviewer)
             (query pullrequestreviewers (\<lambda>r. rv_pull_request_id r = pid) s) =
           map rv_user_id (filter (\<lambda>r. rv_pull_request_id r = pid) (pullrequestreviewers db))"
    unfolding s_def by (rule query_map_snd)
  have s1: "s1 = \<lparr>begun = db, rows = db, objs = db\<lparr>pullrequests := Q\<rparr>,
                  pending = empty_database\<rparr>"
    by (simp add: s1_def s_def assign_PullRequest_def SessionLocal_def Q_def)
  have c: "commit s1 = Inr (db\<lparr>pullrequests := Q\<rparr>)"
  proof -
    have "commit s1 = Inr (objs s1)"
    proof (rule commit_no_pending)
      show "table_ok PullRequest_pk (pullrequests (rows s1)) (pullrequests (objs s1))"
        by (rule table_ok_same_keys)
          (use i(1) in \<open>auto simp: s1 Q_def PullRequest_pk_def nth_list_update\<close>)
    qed (simp_all add: s1 table_ok_refl)
    then show ?thesis by (simp add: s1)
  qed
  have cl: "close s = db"
    by (simp add: close_def s_def SessionLocal_def)
  have u: "pullrequests (db\<lparr>pullrequests := Q\<rparr>) ! i = (pullrequests db ! i)\<lparr>status := MERGED\<rparr>"
    using i(1) by (simp add: Q_def)
  show ?thesis
    unfolding merge_pull_request_def Let_def
    unfolding s_def [symmetric] f option.case prod.case r
    unfolding s1_def [symmetric] c sum.case u cl
    by (simp add: Q_def i)
qed

lemma merge_pull_request_absent:
  assumes "\<forall>p\<in>set (pullrequests db). pull_request_id p \<noteq> pid"
  shows "merge_pull_request db now pid = (db, Inl PR_NOT_FOUND)"
proof -
  have "first (query pullrequests (\<lambda>p. pull_request_id p = pid) (SessionLocal db)) = None"
    using assms by (simp add: first_query_None)
  then show ?thesis
    by (simp add: merge_pull_request_def close_def SessionLocal_def)
qed

lemma decimal_value_snoc:
  "decimal_value (s @ [c]) = 10 * decimal_value s + (of_char c - 48)"
  by (simp add: decimal_value_def)

lemma decimal_value_digit: "d < 10 \<Longrightarrow> of_char (digit d) - 48 = d"
  by (simp add: digit_def)

lemma decimal_value_decimal: "decimal_value (decimal n) = n"
proof (induction n rule: decimal.induct)
  case (1 n)
  show ?case
  proof (cases "n < 10")
    case True
    then have "decimal n = [digit n]" using decimal.simps [of n] by simp
    then show ?thesis using True decimal_value_digit [of n] by (simp add: decimal_value_def)
  next
    case False
    then have "decimal n = decimal (n div 10) @ [digit (n mod 10)]"
      using decimal.simps [of n] by simp
    then have "decimal_value (decimal n) = 10 * decimal_value (decimal (n div 10))
                 + (of_char (digit (n mod 10)) - 48)"
      by (simp only: decimal_value_snoc)
    also have "\<dots> = 10 * (n div 10) + n mod 10"
      using "1.IH" False decimal_value_digit [of "n mod 10"] by simp
    finally show ?thesis by simp
  qed
qed

lemma decimal_value_zeros: "decimal_value (replicate k (CHR ''0'') @ s) = decimal_value s"
proof -
  have "fold (\<lambda>c a. 10 * a + (of_char c - 48)) (replicate k (CHR ''0'')) (0::nat) = 0"
    by (induction k) simp_all
  then show ?thesis by (simp add: decimal_value_def)
qed

lemma decimal_value_format_0d: "decimal_value (format_0d w n) = n"
  by (simp add: format_0d_def decimal_value_zeros decimal_value_decimal)

lemma format_0d_inj: "format_0d w n = format_0d w m \<Longrightarrow> n = m"
  by (metis decimal_value_format_0d)

lemma length_decimal: "n < 10 ^ w \<Longrightarrow> 0 < w \<Longrightarrow> length (decimal n) \<le> w"
proof (induction n arbitrary: w rule: decimal.induct)
  case (1 n)
  show ?case
  proof (cases "n < 10")
    case True
    then have "decimal n = [digit n]" using decimal.simps [of n] by simp
    with "1.prems" show ?thesis by simp
  next
    case False
    then have d: "decimal n = decimal (n div 10) @ [digit (n mod 10)]"
      using decimal.simps [of n] by simp
    from "1.prems" obtain v where v: "w = Suc v" by (cases w) auto
    have "v \<noteq> 0"
    proof
      assume "v = 0"
      with v "1.prems" False show False by simp
    qed
    moreover have "n div 10 < 10 ^ v"
      using "1.prems"(1) v by (simp add: less_mult_imp_div_less mult.commute)
    ultimately have "length (decimal (n div 10)) \<le> v"
      using "1.IH" [of v] False by simp
    with d v show ?thesis by simp
  qed
qed

lemma length_format_0d: "n < 10 ^ w \<Longrightarrow> 0 < w \<Longrightarrow> length (format_0d w n) = w"
  using length_decimal [of n w] by (simp add: format_0d_def)

lemma isoformat_inj:
  assumes v1: "valid_datetime d1" and v2: "valid_datetime d2"
    and eq: "isoformat d1 = isoformat d2"
  shows "d1 = d2"
proof -
  have l4: "length (format_0d 4 (dt_year d1)) = length (format_0d 4 (dt_year d2))"
    using v1 v2 by (simp add: length_format_0d valid_datetime_def)
  have l2: "length (format_0d 2 (dt_month d1)) = length (format_0d 2 (dt_month d2))"
    "length (format_0d 2 (dt_day d1)) = length (format_0d 2 (dt_day d2))"
    "length (format_0d 2 (dt_hour d1)) = length (format_0d 2 (dt_hour d2))"
    "length (format_0d 2 (dt_minute d1)) = length (format_0d 2 (dt_minute d2))"
    "length (format_0d 2 (dt_second d1)) = length (format_0d 2 (dt_second d2))"
    using v1 v2 by (simp_all add: length_format_0d valid_datetime_def)
  from eq l4 l2 have
    f: "format_0d 4 (dt_year d1) = format_0d 4 (dt_year d2)"
       "format_0d 2 (dt_month d1) = format_0d 2 (dt_month d2)"
       "format_0d 2 (dt_day d1) = format_0d 2 (dt_day d2)"
       "format_0d 2 (dt_hour d1) = format_0d 2 (dt_hour d2)"
       "format_0d 2 (dt_minute d1) = format_0d 2 (dt_minute d2)"
       "format_0d 2 (dt_second d1) = format_0d 2 (dt_second d2)"
    and g: "(if dt_microsecond d1 \<noteq> 0 then ''.'' @ format_0d 6 (dt_microsecond d1) else []) =
            (if dt_microsecond d2 \<noteq> 0 then ''.'' @ format_0d 6 (dt_microsecond d2) else [])"
    unfolding isoformat_def by (simp_all del: replicate.simps)
  from g have "dt_microsecond d1 = dt_microsecond d2"
    by (auto split: if_splits dest: format_0d_inj)
  with f show ?thesis
    by (cases d1, cases d2) (auto dest: format_0d_inj)
qed


section \<open>Claims\<close>

text \<open>
  C1. For every user present in the store, \<open>set_user_active_flag\<close> succeeds, sets the
  \<open>is_active\<close> flag of the user and sets the flag of every team membership row of that
  user, in all teams, to the same value: the memberships after the call are the
  memberships before it with the flag of the user's rows replaced, so that no row of
  the user differs from the user's flag.
\<close>

theorem set_user_active_flag_propagates:
  assumes "uid \<in> user_id ` set (users db)"
  shows "\<exists>db' r. set_user_active_flag db uid act = (db', Inr r)
     \<and> ur_is_active r = act
     \<and> (\<exists>u. find (\<lambda>u. user_id u = uid) (users db') = Some u \<and> is_active u = act)
     \<and> teammembers db' =
         map (\<lambda>m. if tm_user_id m = uid then m\<lparr>tm_is_active := act\<rparr> else m) (teammembers db)
     \<and> (\<forall>m\<in>set (teammembers db'). tm_user_id m = uid \<longrightarrow> tm_is_active m = act)"
proof -
  from assms have "\<exists>u\<in>set (users db). user_id u = uid" by auto
  from first_index_ex [OF this] obtain i where
    i: "i < length (users db)" "user_id (users db ! i) = uid"
       "\<forall>j<i. user_id (users db ! j) \<noteq> uid" by blast
  let ?U = "(users db)[i := (users db ! i)\<lparr>is_active := act\<rparr>]"
  let ?M = "map (\<lambda>m. if tm_user_id m = uid then m\<lparr>tm_is_active := act\<rparr> else m) (teammembers db)"
  let ?db' = "db\<lparr>users := ?U, teammembers := ?M\<rparr>"
  let ?r = "\<lparr>ur_user_id = uid, ur_username = username (users db ! i),
            ur_team_name = map_option tm_team_name
              (find (\<lambda>m. tm_user_id m = uid \<and> tm_is_active m) (teammembers db)),
            ur_is_active = act\<rparr>"
  have 1: "set_user_active_flag db uid act = (?db', Inr ?r)"
    by (rule set_user_active_flag_found [OF i])
  have 2: "ur_is_active ?r = act"
    by simp
  have "find (\<lambda>u. user_id u = uid) ?U = Some (?U ! i)"
    by (rule first_idx_find) (use i in \<open>auto simp: nth_list_update\<close>)
  moreover have "is_active (?U ! i) = act"
    using i(1) by simp
  ultimately have 3: "\<exists>u. find (\<lambda>u. user_id u = uid) (users ?db') = Some u \<and> is_active u = act"
    by simp
  have 4: "teammembers ?db' = ?M"
    by simp
  have "\<forall>m\<in>set ?M. tm_user_id m = uid \<longrightarrow> tm_is_active m = act"
  proof
    fix m assume "m \<in> set ?M"
    then obtain m0 where m0: "m = (if tm_user_id m0 = uid then m0\<lparr>tm_is_active := act\<rparr> else m0)"
      by (auto simp only: set_map)
    show "tm_user_id m = uid \<longrightarrow> tm_is_active m = act"
    proof (cases "tm_user_id m0 = uid")
      case True
      with m0 show ?thesis by simp
    next
      case False
      with m0 show ?thesis by simp
    qed
  qed
  then have 5: "\<forall>m\<in>set (teammembers ?db'). tm_user_id m = uid \<longrightarrow> tm_is_active m = act"
    unfolding 4 .
  show ?thesis
    apply (rule exI [of _ ?db'])
    apply (rule exI [of _ ?r])
    apply (intro conjI)
        apply (rule 1)
       apply (rule 2)
      apply (rule 3)
     apply (rule 4)
    apply (rule 5)
    done
qed

theorem set_user_active_flag_propagates_witness:
  "''u2'' \<in> user_id ` set (users example_db)
   \<and> (\<exists>db' r. set_user_active_flag example_db ''u2'' False = (db', Inr r)
     \<and> ur_is_active r = False
     \<and> (\<exists>u. find (\<lambda>u. user_id u = ''u2'') (users db') = Some u \<and> is_active u = False)
     \<and> teammembers db' =
         map (\<lambda>m. if tm_user_id m = ''u2'' then m\<lparr>tm_is_active := False\<rparr> else m)
           (teammembers example_db)
     \<and> (\<forall>m\<in>set (teammembers db'). tm_user_id m = ''u2'' \<longrightarrow> tm_is_active m = False))"
proof -
  have h: "''u2'' \<in> user_id ` set (users example_db)"
    by (simp add: example_db_def)
  from set_user_active_flag_propagates [OF h, of False] h show ?thesis by blast
qed

text \<open>
  C4. The claim is that \<open>set_user_active_flag\<close> returns the team of the first membership
  of the user that is active after the change. The session does not flush before the
  query of step 4, so the query selects on the flags the database held before the
  change. Here \<open>u1\<close>, active in \<open>payments\<close>, is deactivated: no membership of \<open>u1\<close> is
  active afterwards and the team returned is \<open>payments\<close>; and \<open>u5\<close>, inactive in
  \<open>backend\<close>, is activated: the membership is active afterwards and no team is
  returned.
\<close>

theorem set_user_active_flag_team_name_stale:
  "snd (set_user_active_flag example_db ''u1'' False) =
     Inr \<lparr>ur_user_id = ''u1'', ur_username = ''Alice'', ur_team_name = Some ''payments'',
          ur_is_active = False\<rparr>
   \<and> filter (\<lambda>m. tm_user_id m = ''u1'' \<and> tm_is_active m)
       (teammembers (fst (set_user_active_flag example_db ''u1'' False))) = []
   \<and> snd (set_user_active_flag example_db ''u5'' True) =
     Inr \<lparr>ur_user_id = ''u5'', ur_username = ''Eve'', ur_team_name = None,
          ur_is_active = True\<rparr>
   \<and> filter (\<lambda>m. tm_user_id m = ''u5'' \<and> tm_is_active m)
       (teammembers (fst (set_user_active_flag example_db ''u5'' True))) =
     [\<lparr>tm_user_id = ''u5'', tm_team_name = ''backend'', tm_username = ''Eve'',
       tm_is_active = True\<rparr>]"
  by code_simp

text \<open>
  C5. \<open>merge_pull_request\<close> is idempotent: for the id of a stored pull request, the
  first call succeeds with status \<open>MERGED\<close>, a second call on the resulting database
  succeeds with status \<open>MERGED\<close> and the same list of reviewers, and leaves that
  database as it is.
\<close>

theorem merge_pull_request_idempotent:
  assumes "pid \<in> pull_request_id ` set (pullrequests db)"
  shows "\<exists>db1 r1 r2.
           merge_pull_request db now1 pid = (db1, Inr r1)
         \<and> merge_pull_request db1 now2 pid = (db1, Inr r2)
         \<and> pr_status (mr_pr r1) = ''MERGED'' \<and> pr_status (mr_pr r2) = ''MERGED''
         \<and> pr_assigned_reviewers (mr_pr r2) = pr_assigned_reviewers (mr_pr r1)"
proof -
  from assms have "\<exists>p\<in>set (pullrequests db). pull_request_id p = pid" by auto
  from first_index_ex [OF this] obtain i where
    i: "i < length (pullrequests db)" "pull_request_id (pullrequests db ! i) = pid"
       "\<forall>j<i. pull_request_id (pullrequests db ! j) \<noteq> pid" by blast
  define db1 where "db1 = fst (merge_pull_request db now1 pid)"
  have db1: "db1 = (if status (pullrequests db ! i) = MERGED then db
       else db\<lparr>pullrequests := (pullrequests db)[i := (pullrequests db ! i)\<lparr>status := MERGED\<rparr>]\<rparr>)"
    unfolding db1_def merge_pull_request_found [OF i] by simp
  have j: "i < length (pullrequests db1)" "pull_request_id (pullrequests db1 ! i) = pid"
       "\<forall>j<i. pull_request_id (pullrequests db1 ! j) \<noteq> pid"
    using i by (auto simp: db1)
  have m: "status (pullrequests db1 ! i) = MERGED"
    using i(1) by (simp add: db1)
  have rv: "pullrequestreviewers db1 = pullrequestreviewers db"
    by (simp add: db1)
  show ?thesis
    using merge_pull_request_found [OF i, of now1] merge_pull_request_found [OF j, of now2] m rv
    by (simp add: db1 [symmetric])
qed

theorem merge_pull_request_idempotent_witness:
  "''pr-1001'' \<in> pull_request_id ` set (pullrequests example_db)
   \<and> (\<exists>db1 r1 r2.
           merge_pull_request example_db example_now1 ''pr-1001'' = (db1, Inr r1)
         \<and> merge_pull_request db1 example_now2 ''pr-1001'' = (db1, Inr r2)
         \<and> pr_status (mr_pr r1) = ''MERGED'' \<and> pr_status (mr_pr r2) = ''MERGED''
         \<and> pr_assigned_reviewers (mr_pr r2) = pr_assigned_reviewers (mr_pr r1))"
proof -
  have h: "''pr-1001'' \<in> pull_request_id ` set (pullrequests example_db)"
    by (simp add: example_db_def)
  from merge_pull_request_idempotent [OF h, of example_now1 example_now2] h
  show ?thesis by blast
qed

text \<open>
  C6. For a stored pull request whose status is \<open>MERGED\<close>,
  \<open>reassign_pull_request_reviewer\<close> fails with \<open>PR_MERGED\<close> for every \<open>old_user_id\<close>,
  whatever the reviewers, the teams and the candidates are, and the database is
  unchanged.
\<close>

theorem reassign_merged_fails:
  assumes "find (\<lambda>p. pull_request_id p = pid) (pullrequests db) = Some pr"
    and "status pr = MERGED"
  shows "reassign_pull_request_reviewer db pid old_user_id = (db, Inl PR_MERGED)"
proof -
  from assms(1) obtain i where
    i: "i < length (pullrequests db)" "pull_request_id (pullrequests db ! i) = pid"
       "pr = pullrequests db ! i" "\<forall>j<i. pull_request_id (pullrequests db ! j) \<noteq> pid"
    by (auto simp: find_Some_iff)
  have "first (query pullrequests (\<lambda>p. pull_request_id p = pid) (SessionLocal db)) = Some (i, pr)"
    using i by (simp add: first_query_Some)
  then show ?thesis
    using assms(2) by (simp add: reassign_pull_request_reviewer_def close_def SessionLocal_def)
qed

theorem reassign_merged_fails_witness:
  "find (\<lambda>p. pull_request_id p = ''pr-1002'') (pullrequests example_db) =
     Some \<lparr>pull_request_id = ''pr-1002'', pull_request_name = ''Fix bug'',
           author_id = ''u2'', status = MERGED\<rparr>
   \<and> reassign_pull_request_reviewer example_db ''pr-1002'' ''u9'' = (example_db, Inl PR_MERGED)"
proof -
  have h: "find (\<lambda>p. pull_request_id p = ''pr-1002'') (pullrequests example_db) =
     Some \<lparr>pull_request_id = ''pr-1002'', pull_request_name = ''Fix bug'',
           author_id = ''u2'', status = MERGED\<rparr>"
    by (simp add: example_db_def)
  from reassign_merged_fails [OF h, of "''u9''"] h show ?thesis by simp
qed

text \<open>
  C7. The \<open>mergedAt\<close> of a \<open>merge_pull_request\<close> response is the clock of the call,
  printed, and is not stored: the database after a call does not depend on the clock,
  and for a pull request that is already merged two calls at different times return
  the same pull request with different \<open>mergedAt\<close> and leave the database unchanged.
\<close>

theorem merge_pull_request_mergedAt_fresh:
  "fst (merge_pull_request db now1 pid) = fst (merge_pull_request db now2 pid)
   \<and> (find (\<lambda>p. pull_request_id p = pid) (pullrequests db) = Some pr \<and> status pr = MERGED
        \<and> valid_datetime now1 \<and> valid_datetime now2 \<and> now1 \<noteq> now2 \<longrightarrow>
      (\<exists>r1 r2. merge_pull_request db now1 pid = (db, Inr r1)
              \<and> merge_pull_request db now2 pid = (db, Inr r2)
              \<and> mr_mergedAt r1 = isoformat now1 @ ''Z''
              \<and> mr_mergedAt r2 = isoformat now2 @ ''Z''
              \<and> mr_mergedAt r1 \<noteq> mr_mergedAt r2
              \<and> mr_pr r1 = mr_pr r2))"
proof
  show "fst (merge_pull_request db now1 pid) = fst (merge_pull_request db now2 pid)"
  proof (cases "\<exists>p\<in>set (pullrequests db). pull_request_id p = pid")
    case True
    from first_index_ex [OF this] obtain i where
      i: "i < length (pullrequests db)" "pull_request_id (pullrequests db ! i) = pid"
         "\<forall>j<i. pull_request_id (pullrequests db ! j) \<noteq> pid" by blast
    show ?thesis by (simp add: merge_pull_request_found [OF i])
  next
    case False
    then show ?thesis by (simp add: merge_pull_request_absent)
  qed
next
  show "find (\<lambda>p. pull_request_id p = pid) (pullrequests db) = Some pr \<and> status pr = MERGED
        \<and> valid_datetime now1 \<and> valid_datetime now2 \<and> now1 \<noteq> now2 \<longrightarrow>
      (\<exists>r1 r2. merge_pull_request db now1 pid = (db, Inr r1)
              \<and> merge_pull_request db now2 pid = (db, Inr r2)
              \<and> mr_mergedAt r1 = isoformat now1 @ ''Z''
              \<and> mr_mergedAt r2 = isoformat now2 @ ''Z''
              \<and> mr_mergedAt r1 \<noteq> mr_mergedAt r2
              \<and> mr_pr r1 = mr_pr r2)"
  proof
    assume a: "find (\<lambda>p. pull_request_id p = pid) (pullrequests db) = Some pr \<and> status pr = MERGED
        \<and> valid_datetime now1 \<and> valid_datetime now2 \<and> now1 \<noteq> now2"
    then obtain i where
      i: "i < length (pullrequests db)" "pull_request_id (pullrequests db ! i) = pid"
         "\<forall>j<i. pull_request_id (pullrequests db ! j) \<noteq> pid"
      and pr: "pr = pullrequests db ! i"
      by (auto simp: find_Some_iff)
    have "isoformat now1 \<noteq> isoformat now2"
      using a isoformat_inj [of now1 now2] by blast
    then show "\<exists>r1 r2. merge_pull_request db now1 pid = (db, Inr r1)
              \<and> merge_pull_request db now2 pid = (db, Inr r2)
              \<and> mr_mergedAt r1 = isoformat now1 @ ''Z''
              \<and> mr_mergedAt r2 = isoformat now2 @ ''Z''
              \<and> mr_mergedAt r1 \<noteq> mr_mergedAt r2
              \<and> mr_pr r1 = mr_pr r2"
      using a pr by (simp add: merge_pull_request_found [OF i])
  qed
qed

theorem merge_pull_request_mergedAt_fresh_witness:
  "\<exists>r1 r2. merge_pull_request example_db example_now1 ''pr-1002'' = (example_db, Inr r1)
         \<and> merge_pull_request example_db example_now2 ''pr-1002'' = (example_db, Inr r2)
         \<and> mr_mergedAt r1 = isoformat example_now1 @ ''Z''
         \<and> mr_mergedAt r2 = isoformat example_now2 @ ''Z''
         \<and> mr_mergedAt r1 \<noteq> mr_mergedAt r2
         \<and> mr_pr r1 = mr_pr r2"
proof -
  have h: "find (\<lambda>p. pull_request_id p = ''pr-1002'') (pullrequests example_db) =
     Some \<lparr>pull_request_id = ''pr-1002'', pull_request_name = ''Fix bug'',
           author_id = ''u2'', status = MERGED\<rparr>"
    by (simp add: example_db_def)
  have v: "valid_datetime example_now1" "valid_datetime example_now2"
    "example_now1 \<noteq> example_now2"
    by (simp_all add: valid_datetime_def example_now1_def example_now2_def)
  from merge_pull_request_mergedAt_fresh
    [of example_db example_now1 "''pr-1002''" example_now2
        "\<lparr>pull_request_id = ''pr-1002'', pull_request_name = ''Fix bug'',
          author_id = ''u2'', status = MERGED\<rparr>"] h v
  show ?thesis by simp
qed

text \<open>
  C10. \<open>get_team_with_members\<close> and \<open>get_user_review_pull_requests\<close> are read-only:
  for every input, on success and on failure, the database they leave (users, teams,
  team memberships, pull requests and reviewers) is the database they were given.
\<close>

theorem get_functions_read_only:
  "fst (get_team_with_members db tn) = db \<and> fst (get_user_review_pull_requests db uid) = db"
  by (simp add: get_team_with_members_def get_user_review_pull_requests_def close_def
      SessionLocal_def Let_def split: option.splits)

theorem get_functions_read_only_witness:
  "fst (get_team_with_members example_db ''payments'') = example_db
   \<and> fst (get_team_with_members example_db ''nobody'') = example_db
   \<and> fst (get_user_review_pull_requests example_db ''u2'') = example_db
   \<and> fst (get_user_review_pull_requests example_db ''u999'') = example_db"
  using get_functions_read_only [of example_db "''payments''" "''u2''"]
    get_functions_read_only [of example_db "''nobody''" "''u999''"]
  by simp

end
